theory Spec2Isabelle
  imports Main
begin

section \<open>The storyboard generator of \<^verbatim>\<open>src/index.tsx\<close>\<close>

text \<open>
  The component \<^verbatim>\<open>App\<close> keeps five pieces of React state and offers three handlers:
  \<^verbatim>\<open>generateStoryboard\<close>, \<^verbatim>\<open>handlePrev\<close> and \<^verbatim>\<open>handleNext\<close>. The two generative
  services are outside the program, so a run is modelled against their answers: one
  answer of the text service and one answer of the image service per scene index. A run
  is the list of the effects it performs, in program order; a state setter is an effect,
  and so is a request sent to a service. Replaying the setters over the state in which
  the handler was invoked gives every state the presentation layer can observe.

  The concept is the one string whose characters the program inspects (\<^verbatim>\<open>trim\<close>), so
  it is kept as the list of its UTF-16 code units. Every other string is only copied or
  compared with a literal and is a \<^typ>\<open>string\<close>.
\<close>

subsection \<open>Values\<close>

text \<open>
  What \<^verbatim>\<open>JSON.parse\<close> returns. An object is the list of its own properties, each key
  once. Numbers are never inspected by the program, integers stand for them.
\<close>

datatype json =
    JNull
  | JBool bool
  | JNum int
  | JStr string
  | JArr "json list"
  | JObj "(string \<times> json) list"

text \<open>
  \<^verbatim>\<open>interface Scene\<close>. The field \<^verbatim>\<open>narration\<close> is declared a string, but it is
  filled with \<^verbatim>\<open>s.narration\<close> of a parsed value without any check, so at run time it
  is any JSON value or \<^verbatim>\<open>undefined\<close> (\<^term>\<open>None\<close>). \<^verbatim>\<open>imageUrl\<close> is a string or
  \<^verbatim>\<open>null\<close> (\<^term>\<open>None\<close>).
\<close>

record scene =
  narration :: "json option"
  imageUrl :: "string option"
  isLoadingImage :: bool

text \<open>The five \<^verbatim>\<open>useState\<close> cells of \<^verbatim>\<open>App\<close>.\<close>

record app_state =
  storyboard :: "scene list"
  concept :: "nat list"
  currentSceneIndex :: int
  isLoading :: bool
  error :: "string option"

definition initial_state :: app_state where
  "initial_state =
     \<lparr>storyboard = [], concept = [], currentSceneIndex = 0, isLoading = False, error = None\<rparr>"

datatype js_error = ServiceError | SyntaxError | TypeError

subsection \<open>Answers of the two services\<close>

text \<open>
  The text service: the request is rejected, or \<^verbatim>\<open>JSON.parse(narrationResponse.text)\<close>
  throws (the text is absent or is not JSON), or it returns a value.
\<close>

datatype narration_outcome =
    NarrationCallRejected
  | NarrationTextInvalid
  | NarrationParsed json

text \<open>
  The image service: the request is rejected, or it returns a response. The program
  reads \<^verbatim>\<open>imageResponse.generatedImages[0].image.imageBytes\<close>; every link of that chain
  may be absent.
\<close>

datatype image_payload = Image (imageBytes: "string option")

datatype generated_image = GeneratedImage (image: "image_payload option")

datatype images_response = ImagesResponse (generatedImages: "generated_image list option")

datatype image_outcome =
    ImageCallRejected
  | ImageReturned images_response

subsection \<open>Effects\<close>

text \<open>
  \<^verbatim>\<open>GenerateContentCall c\<close> is the request to the text service whose prompt embeds the
  concept \<^verbatim>\<open>c\<close>; \<^verbatim>\<open>GenerateImagesCall i\<close> is the request to the image service whose
  prompt embeds the narration of scene \<^verbatim>\<open>i\<close>.
\<close>

datatype event =
    SetError "string option"
  | SetIsLoading bool
  | SetStoryboard "scene list"
  | SetCurrentSceneIndex int
  | GenerateContentCall "nat list"
  | GenerateImagesCall nat
  | ConsoleError

fun apply_event :: "event \<Rightarrow> app_state \<Rightarrow> app_state" where
  "apply_event (SetError e) s = s\<lparr>error := e\<rparr>"
| "apply_event (SetIsLoading b) s = s\<lparr>isLoading := b\<rparr>"
| "apply_event (SetStoryboard sb) s = s\<lparr>storyboard := sb\<rparr>"
| "apply_event (SetCurrentSceneIndex i) s = s\<lparr>currentSceneIndex := i\<rparr>"
| "apply_event (GenerateContentCall c) s = s"
| "apply_event (GenerateImagesCall i) s = s"
| "apply_event ConsoleError s = s"

definition replay :: "app_state \<Rightarrow> event list \<Rightarrow> app_state" where
  "replay s evs = foldl (\<lambda>st e. apply_event e st) s evs"

text \<open>The state after each effect of a run, in order.\<close>

fun states_after :: "app_state \<Rightarrow> event list \<Rightarrow> app_state list" where
  "states_after s [] = []"
| "states_after s (e # es) = apply_event e s # states_after (apply_event e s) es"

text \<open>The storyboards handed to \<^verbatim>\<open>setStoryboard\<close>, in order.\<close>

fun snapshots :: "event list \<Rightarrow> scene list list" where
  "snapshots [] = []"
| "snapshots (SetStoryboard sb # es) = sb # snapshots es"
| "snapshots (e # es) = snapshots es"

fun is_network_call :: "event \<Rightarrow> bool" where
  "is_network_call (GenerateContentCall c) = True"
| "is_network_call (GenerateImagesCall i) = True"
| "is_network_call e = False"

fun sets_is_loading :: "event \<Rightarrow> bool" where
  "sets_is_loading (SetIsLoading b) = True"
| "sets_is_loading e = False"

subsection \<open>\<^verbatim>\<open>concept.trim() === ""\<close>\<close>

text \<open>
  \<^verbatim>\<open>trim\<close> removes white space and line terminators from both ends: TAB, LF, VT, FF,
  CR, SP, NBSP, U+1680, U+2000 to U+200A, U+2028, U+2029, U+202F, U+205F, U+3000 and
  U+FEFF.
\<close>

definition is_whitespace :: "nat \<Rightarrow> bool" where
  "is_whitespace c =
     (c \<in> {9, 10, 11, 12, 13, 32, 160, 5760, 8232, 8233, 8239, 8287, 12288, 65279}
      \<or> (8192 \<le> c \<and> c \<le> 8202))"

definition trim :: "nat list \<Rightarrow> nat list" where
  "trim s = rev (dropWhile is_whitespace (rev (dropWhile is_whitespace s)))"

subsection \<open>Step 1: from the parsed answer to the initial storyboard\<close>

text \<open>
  \<^verbatim>\<open>s.narration\<close>: a TypeError on \<^verbatim>\<open>null\<close>, the property on an object,
  \<^verbatim>\<open>undefined\<close> when the object lacks it and on every other value.
\<close>

fun get_narration :: "json \<Rightarrow> js_error + json option" where
  "get_narration JNull = Inl TypeError"
| "get_narration (JObj kvs) = Inr (map_of kvs ''narration'')"
| "get_narration v = Inr None"

definition to_scene :: "json \<Rightarrow> js_error + scene" where
  "to_scene s =
     (case get_narration s of
        Inl e \<Rightarrow> Inl e
      | Inr v \<Rightarrow> Inr \<lparr>narration = v, imageUrl = None, isLoadingImage = True\<rparr>)"

fun map_scenes :: "json list \<Rightarrow> js_error + scene list" where
  "map_scenes [] = Inr []"
| "map_scenes (x # xs) =
     (case to_scene x of
        Inl e \<Rightarrow> Inl e
      | Inr sc \<Rightarrow> (case map_scenes xs of Inl e \<Rightarrow> Inl e | Inr scs \<Rightarrow> Inr (sc # scs)))"

text \<open>
  \<^verbatim>\<open>parsedScenes.map(...)\<close>: only an array has a callable \<^verbatim>\<open>map\<close>; on any other
  parsed value the call is a TypeError.
\<close>

fun parse_scenes :: "narration_outcome \<Rightarrow> js_error + scene list" where
  "parse_scenes NarrationCallRejected = Inl ServiceError"
| "parse_scenes NarrationTextInvalid = Inl SyntaxError"
| "parse_scenes (NarrationParsed (JArr xs)) = map_scenes xs"
| "parse_scenes (NarrationParsed v) = Inl TypeError"

subsection \<open>Step 2: one image per scene\<close>

text \<open>
  The template literal \<^verbatim>\<open>`... ${scene.narration} ...`\<close> converts the narration to a
  string. The conversion throws a TypeError on an object that has a property
  \<^verbatim>\<open>toString\<close> of its own (a parsed value is never callable), and on an array one of
  whose elements throws; it returns a string on everything else. It is evaluated outside
  the inner \<^verbatim>\<open>try\<close>.
\<close>

fun template_throws :: "json \<Rightarrow> bool" where
  "template_throws (JObj kvs) = (''toString'' \<in> set (map fst kvs))"
| "template_throws (JArr xs) = list_ex template_throws xs"
| "template_throws v = False"

definition prompt_throws :: "json option \<Rightarrow> bool" where
  "prompt_throws v = (case v of None \<Rightarrow> False | Some j \<Rightarrow> template_throws j)"

text \<open>The body of the inner \<^verbatim>\<open>try\<close> up to \<^verbatim>\<open>imageUrl\<close>.\<close>

fun image_url_of :: "image_outcome \<Rightarrow> js_error + string" where
  "image_url_of ImageCallRejected = Inl ServiceError"
| "image_url_of (ImageReturned r) =
     (case generatedImages r of
        None \<Rightarrow> Inl TypeError
      | Some [] \<Rightarrow> Inl TypeError
      | Some (g # gs) \<Rightarrow>
          (case image g of
             None \<Rightarrow> Inl TypeError
           | Some p \<Rightarrow>
               Inr (''data:image/jpeg;base64,'' @
                    (case imageBytes p of None \<Rightarrow> ''undefined'' | Some b \<Rightarrow> b))))"

text \<open>\<^verbatim>\<open>currentStoryboard.map((s, index) => index === i ? f(s) : s)\<close>\<close>

definition map_at :: "nat \<Rightarrow> (scene \<Rightarrow> scene) \<Rightarrow> scene list \<Rightarrow> scene list" where
  "map_at i f cur = map (\<lambda>(index, s). if index = i then f s else s) (enumerate 0 cur)"

text \<open>The inner \<^verbatim>\<open>try\<close>/\<^verbatim>\<open>catch\<close> of iteration \<^verbatim>\<open>i\<close>: its effects and the new
  \<^verbatim>\<open>currentStoryboard\<close>.\<close>

definition image_step :: "image_outcome \<Rightarrow> nat \<Rightarrow> scene list \<Rightarrow> event list \<times> scene list" where
  "image_step out i cur =
     (case image_url_of out of
        Inr url \<Rightarrow>
          (let cur' = map_at i (\<lambda>s. s\<lparr>imageUrl := Some url, isLoadingImage := False\<rparr>) cur
           in ([GenerateImagesCall i, SetStoryboard cur'], cur'))
      | Inl imageError \<Rightarrow>
          (let cur' = map_at i (\<lambda>s. s\<lparr>isLoadingImage := False, imageUrl := None\<rparr>) cur
           in ([GenerateImagesCall i, ConsoleError, SetStoryboard cur'], cur')))"

text \<open>
  \<^verbatim>\<open>for (let i = 0; i < initialStoryboard.length; i++)\<close>, from iteration \<^verbatim>\<open>i\<close> on:
  the effects, and the error that leaves the loop, if any.
\<close>

function image_loop ::
  "(nat \<Rightarrow> image_outcome) \<Rightarrow> scene list \<Rightarrow> nat \<Rightarrow> scene list \<Rightarrow> event list \<times> js_error option"
where
  "image_loop imgs init i cur =
     (if i < length init then
        (if prompt_throws (narration (init ! i)) then ([], Some TypeError)
         else
           (case image_step (imgs i) i cur of
              (evs, cur') \<Rightarrow>
                (case image_loop imgs init (Suc i) cur' of
                   (rest, thrown) \<Rightarrow> (evs @ rest, thrown))))
      else ([], None))"
  by pat_completeness auto
termination
  by (relation "measure (\<lambda>(imgs, init, i, cur). length init - i)") auto

subsection \<open>\<^verbatim>\<open>generateStoryboard\<close>\<close>

text \<open>The outer \<^verbatim>\<open>try\<close> block: its effects and the error it throws, if any.\<close>

definition try_block ::
  "narration_outcome \<Rightarrow> (nat \<Rightarrow> image_outcome) \<Rightarrow> nat list \<Rightarrow> event list \<times> js_error option"
where
  "try_block nr imgs c =
     (case parse_scenes nr of
        Inl e \<Rightarrow> ([GenerateContentCall c], Some e)
      | Inr initialStoryboard \<Rightarrow>
          (case image_loop imgs initialStoryboard 0 initialStoryboard of
             (evs, thrown) \<Rightarrow>
               (GenerateContentCall c # SetStoryboard initialStoryboard # evs, thrown)))"

definition validation_message :: string where
  "validation_message = ''Please enter a concept to explain.''"

definition failure_message :: string where
  "failure_message = ''Failed to generate the storyboard. Please try again.''"

definition generateStoryboard ::
  "narration_outcome \<Rightarrow> (nat \<Rightarrow> image_outcome) \<Rightarrow> app_state \<Rightarrow> event list"
where
  "generateStoryboard nr imgs s =
     (if trim (concept s) = [] then [SetError (Some validation_message)]
      else
        [SetIsLoading True, SetError None, SetStoryboard [], SetCurrentSceneIndex 0] @
        (case try_block nr imgs (concept s) of
           (evs, thrown) \<Rightarrow>
             evs @
             (case thrown of
                Some e \<Rightarrow> [ConsoleError, SetError (Some failure_message)]
              | None \<Rightarrow> [])) @
        [SetIsLoading False])"

text \<open>The state in which a run leaves the component.\<close>

definition run :: "narration_outcome \<Rightarrow> (nat \<Rightarrow> image_outcome) \<Rightarrow> app_state \<Rightarrow> app_state" where
  "run nr imgs s = replay s (generateStoryboard nr imgs s)"

subsection \<open>Navigation\<close>

definition handlePrev :: "app_state \<Rightarrow> app_state" where
  "handlePrev s = s\<lparr>currentSceneIndex := max (currentSceneIndex s - 1) 0\<rparr>"

definition handleNext :: "app_state \<Rightarrow> app_state" where
  "handleNext s =
     s\<lparr>currentSceneIndex := min (currentSceneIndex s + 1) (int (length (storyboard s)) - 1)\<rparr>"

subsection \<open>Vocabulary of the statements\<close>

text \<open>
  What iteration \<^verbatim>\<open>i\<close> of the loop writes into scene \<^verbatim>\<open>i\<close>, both branches of the
  inner \<^verbatim>\<open>try\<close>/\<^verbatim>\<open>catch\<close> at once, and the storyboard in which the scenes
  \<^verbatim>\<open>lo\<close> to \<^verbatim>\<open>hi - 1\<close> have been written so.
\<close>

definition resolve :: "image_outcome \<Rightarrow> scene \<Rightarrow> scene" where
  "resolve out sc =
     sc\<lparr>imageUrl := (case image_url_of out of Inl e \<Rightarrow> None | Inr url \<Rightarrow> Some url),
        isLoadingImage := False\<rparr>"

definition resolved :: "(nat \<Rightarrow> image_outcome) \<Rightarrow> nat \<Rightarrow> nat \<Rightarrow> scene list \<Rightarrow> scene list" where
  "resolved imgs lo hi cur =
     map (\<lambda>(j, sc). if lo \<le> j \<and> j < hi then resolve (imgs j) sc else sc) (enumerate 0 cur)"

text \<open>The effects an iteration of the loop can have.\<close>

fun loop_event :: "event \<Rightarrow> bool" where
  "loop_event (SetStoryboard sb) = True"
| "loop_event (GenerateImagesCall i) = True"
| "loop_event ConsoleError = True"
| "loop_event e = False"

text \<open>The scene that \<^verbatim>\<open>parsedScenes.map\<close> makes of an element that is not \<^verbatim>\<open>null\<close>.\<close>

fun narration_of :: "json \<Rightarrow> json option" where
  "narration_of (JObj kvs) = map_of kvs ''narration''"
| "narration_of v = None"

definition scene_of :: "json \<Rightarrow> scene" where
  "scene_of x = \<lparr>narration = narration_of x, imageUrl = None, isLoadingImage = True\<rparr>"

text \<open>
  The answers of the text service on which step 1 throws: a rejected request, a text
  that is not JSON, a parsed value that is not an array, an array with a \<^verbatim>\<open>null\<close>
  element.
\<close>

fun unusable_answer :: "narration_outcome \<Rightarrow> bool" where
  "unusable_answer NarrationCallRejected = True"
| "unusable_answer NarrationTextInvalid = True"
| "unusable_answer (NarrationParsed (JArr xs)) = (JNull \<in> set xs)"
| "unusable_answer (NarrationParsed v) = True"

text \<open>
  The answers of the image service that make the inner \<^verbatim>\<open>try\<close> throw: the request is
  rejected, or the response has no \<^verbatim>\<open>generatedImages\<close>, or an empty one, or a first
  entry without \<^verbatim>\<open>image\<close>. A response whose first entry has an image is not among
  them, whatever its bytes are.
\<close>

fun image_failed :: "image_outcome \<Rightarrow> bool" where
  "image_failed ImageCallRejected = True"
| "image_failed (ImageReturned (ImagesResponse None)) = True"
| "image_failed (ImageReturned (ImagesResponse (Some []))) = True"
| "image_failed (ImageReturned (ImagesResponse (Some (GeneratedImage None # gs)))) = True"
| "image_failed (ImageReturned (ImagesResponse (Some (GeneratedImage (Some p) # gs)))) = False"

subsection \<open>Sample inputs\<close>

text \<open>
  The code units of an ASCII literal; a state in which the user has typed a concept; an
  answer of the image service that carries an image, and answers of which only the one
  for scene 2 is a failure; scene descriptors as the output schema describes them, the
  storyboards made of them, and two answers of the text service that the schema excludes.
\<close>

definition code_units :: "string \<Rightarrow> nat list" where
  "code_units s = map of_char s"

definition gravity_state :: app_state where
  "gravity_state = initial_state\<lparr>concept := code_units ''gravity''\<rparr>"

definition image_ok :: image_outcome where
  "image_ok = ImageReturned (ImagesResponse (Some [GeneratedImage (Some (Image (Some ''QUJD'')))]))"

definition descriptor :: "int \<Rightarrow> string \<Rightarrow> json" where
  "descriptor n t = JObj [(''scene'', JNum n), (''narration'', JStr t)]"

definition five_descriptors :: json where
  "five_descriptors =
     JArr [descriptor 1 ''a'', descriptor 2 ''b'', descriptor 3 ''c'', descriptor 4 ''d'',
           descriptor 5 ''e'']"

definition three_scenes :: "scene list" where
  "three_scenes =
     [\<lparr>narration = Some (JStr ''a''), imageUrl = None, isLoadingImage = True\<rparr>,
      \<lparr>narration = Some (JStr ''b''), imageUrl = None, isLoadingImage = True\<rparr>,
      \<lparr>narration = Some (JStr ''c''), imageUrl = None, isLoadingImage = True\<rparr>]"

definition one_failure :: "nat \<Rightarrow> image_outcome" where
  "one_failure i = (if i = 2 then ImageCallRejected else image_ok)"

definition five_scenes :: "scene list" where
  "five_scenes = map (\<lambda>t. \<lparr>narration = Some (JStr t), imageUrl = None, isLoadingImage = True\<rparr>)
     [''a'', ''b'', ''c'', ''d'', ''e'']"

definition lone_empty_narration :: narration_outcome where
  "lone_empty_narration = NarrationParsed (JArr [descriptor 1 ''''])"

definition missing_narration :: narration_outcome where
  "missing_narration = NarrationParsed (JArr [JObj [(''scene'', JNum 1)]])"

text \<open>
  Answers of the image service that fail for scenes 2 and 4, in the two ways a request
  can fail; a response whose image has no bytes; an answer of the text service with a
  single descriptor, and one whose elements are not objects.
\<close>

definition two_failures :: "nat \<Rightarrow> image_outcome" where
  "two_failures i =
     (if i = 2 then ImageCallRejected
      else if i = 4 then ImageReturned (ImagesResponse (Some []))
      else image_ok)"


definition lone_descriptor :: narration_outcome where
  "lone_descriptor = NarrationParsed (JArr [descriptor 1 ''a''])"

definition non_object_elements :: narration_outcome where
  "non_object_elements = NarrationParsed (JArr [JNum 1, JStr ''x'', JBool True])"

section \<open>Auxiliary facts\<close>

declare image_loop.simps [simp del]

lemma trim_empty_iff: "trim s = [] \<longleftrightarrow> (\<forall>c\<in>set s. is_whitespace c)"
proof
  assume "trim s = []"
  then have "\<forall>x\<in>set (dropWhile is_whitespace s). is_whitespace x"
    by (simp add: trim_def)
  then have "dropWhile is_whitespace s = []"
    by (metis hd_dropWhile list.set_sel(1))
  then show "\<forall>c\<in>set s. is_whitespace c" by simp
next
  assume "\<forall>c\<in>set s. is_whitespace c"
  then show "trim s = []" by (auto simp: trim_def dest: set_dropWhileD)
qed

lemma map_at_eq: "map_at i f cur = (if i < length cur then cur[i := f (cur ! i)] else cur)"
  by (auto simp: map_at_def list_eq_iff_nth_eq nth_enumerate_eq nth_list_update)

lemma length_map_at [simp]: "length (map_at i f cur) = length cur"
  by (simp add: map_at_def)

lemma length_resolved [simp]: "length (resolved imgs lo hi cur) = length cur"
  by (simp add: resolved_def)

lemma nth_resolved:
  "j < length cur \<Longrightarrow>
   resolved imgs lo hi cur ! j = (if lo \<le> j \<and> j < hi then resolve (imgs j) (cur ! j) else cur ! j)"
  by (simp add: resolved_def nth_enumerate_eq)

lemma nth_map_at:
  "j < length cur \<Longrightarrow> map_at i f cur ! j = (if j = i then f (cur ! j) else cur ! j)"
  by (simp add: map_at_def nth_enumerate_eq)

lemma resolved_empty [simp]: "resolved imgs lo lo cur = cur"
  by (auto simp: list_eq_iff_nth_eq nth_resolved)

lemma resolved_map_at:
  "resolved imgs (Suc i) hi (map_at i (resolve (imgs i)) cur) = resolved imgs i (max hi (Suc i)) cur"
  by (auto simp: list_eq_iff_nth_eq nth_resolved nth_map_at)

lemma resolved_Suc:
  "k < length cur \<Longrightarrow>
   resolved imgs 0 (Suc k) cur =
     (resolved imgs 0 k cur)[k := resolve (imgs k) (resolved imgs 0 k cur ! k)]"
  by (auto simp: list_eq_iff_nth_eq nth_resolved nth_list_update)

lemma narration_resolve [simp]: "narration (resolve out sc) = narration sc"
  by (simp add: resolve_def)

lemma map_narration_resolved [simp]:
  "map narration (resolved imgs lo hi cur) = map narration cur"
  by (simp add: list_eq_iff_nth_eq nth_resolved)

lemma image_failure_cases:
  "(\<exists>e. image_url_of out = Inl e) \<longleftrightarrow>
     out = ImageCallRejected
   \<or> (\<exists>r. out = ImageReturned r
          \<and> (generatedImages r = None \<or> generatedImages r = Some []
              \<or> (\<exists>g gs. generatedImages r = Some (g # gs) \<and> image g = None)))"
  by (cases out) (auto split: option.splits list.splits)

lemma image_step_eq:
  "image_step out i cur =
     (GenerateImagesCall i #
        (case image_url_of out of Inl e \<Rightarrow> [ConsoleError] | Inr u \<Rightarrow> []) @
        [SetStoryboard (map_at i (resolve out) cur)],
      map_at i (resolve out) cur)"
  by (auto simp: image_step_def resolve_def Let_def map_at_def split: sum.splits)

lemma image_loop_stop:
  "\<not> i < length init \<Longrightarrow> image_loop imgs init i cur = ([], None)"
  by (simp add: image_loop.simps[of imgs init i cur])

lemma image_loop_throw:
  "i < length init \<Longrightarrow> prompt_throws (narration (init ! i)) \<Longrightarrow>
   image_loop imgs init i cur = ([], Some TypeError)"
  by (simp add: image_loop.simps[of imgs init i cur])

lemma image_loop_step:
  "i < length init \<Longrightarrow> \<not> prompt_throws (narration (init ! i)) \<Longrightarrow>
   image_loop imgs init i cur =
     (GenerateImagesCall i #
        (case image_url_of (imgs i) of Inl e \<Rightarrow> [ConsoleError] | Inr u \<Rightarrow> []) @
        SetStoryboard (map_at i (resolve (imgs i)) cur) #
        fst (image_loop imgs init (Suc i) (map_at i (resolve (imgs i)) cur)),
      snd (image_loop imgs init (Suc i) (map_at i (resolve (imgs i)) cur)))"
  by (simp add: image_loop.simps[of imgs init i cur] image_step_eq split: prod.splits)

lemma image_loop_induct [case_names step]:
  fixes init :: "scene list" and cur :: "scene list"
  assumes "\<And>i cur.
     (i < length init \<Longrightarrow> \<not> prompt_throws (narration (init ! i)) \<Longrightarrow>
        P (Suc i) (map_at i (resolve (imgs i)) cur)) \<Longrightarrow> P i cur"
  shows "P i cur"
proof (induction "length init - i" arbitrary: i cur rule: less_induct)
  case less
  show ?case
    apply (rule assms)
    apply (rule less)
    apply arith
    done
qed

lemma loop_events_kind: "\<forall>e\<in>set (fst (image_loop imgs init i cur)). loop_event e"
proof (induction i cur rule: image_loop_induct[where init = init and imgs = imgs])
  case (step i cur)
  show ?case
  proof (cases "i < length init")
    case False
    then show ?thesis by (simp add: image_loop_stop)
  next
    case True
    show ?thesis
    proof (cases "prompt_throws (narration (init ! i))")
      case True
      with \<open>i < length init\<close> show ?thesis by (simp add: image_loop_throw)
    next
      case False
      with \<open>i < length init\<close> step show ?thesis
        by (auto simp: image_loop_step split: sum.splits)
    qed
  qed
qed

lemma loop_snapshots_length:
  "length (snapshots (fst (image_loop imgs init i cur))) \<le> length init - i"
proof (induction i cur rule: image_loop_induct[where init = init and imgs = imgs])
  case (step i cur)
  show ?case
  proof (cases "i < length init")
    case False
    then show ?thesis by (simp add: image_loop_stop)
  next
    case True
    show ?thesis
    proof (cases "prompt_throws (narration (init ! i))")
      case True
      with \<open>i < length init\<close> show ?thesis by (simp add: image_loop_throw)
    next
      case False
      with \<open>i < length init\<close> step show ?thesis
        by (auto simp: image_loop_step split: sum.splits)
    qed
  qed
qed

lemma loop_snapshots_nth:
  "k < length (snapshots (fst (image_loop imgs init i cur))) \<Longrightarrow>
   snapshots (fst (image_loop imgs init i cur)) ! k = resolved imgs i (i + Suc k) cur"
proof (induction i cur arbitrary: k rule: image_loop_induct[where init = init and imgs = imgs])
  case (step i cur)
  show ?case
  proof (cases "i < length init \<and> \<not> prompt_throws (narration (init ! i))")
    case False
    with step.prems show ?thesis
      by (cases "i < length init") (simp_all add: image_loop_stop image_loop_throw)
  next
    case True
    let ?cur' = "map_at i (resolve (imgs i)) cur"
    let ?rest = "snapshots (fst (image_loop imgs init (Suc i) ?cur'))"
    have unfold: "snapshots (fst (image_loop imgs init i cur)) = ?cur' # ?rest"
      using True by (simp add: image_loop_step split: sum.splits)
    show ?thesis
    proof (cases k)
      case 0
      have "?cur' = resolved imgs i (Suc i) cur"
        by (auto simp: list_eq_iff_nth_eq nth_resolved nth_map_at)
      with 0 unfold show ?thesis by simp
    next
      case (Suc k')
      with step.prems unfold have "k' < length ?rest" by simp
      with True have "?rest ! k' = resolved imgs (Suc i) (Suc i + Suc k') ?cur'"
        by (intro step.IH) simp_all
      also have "\<dots> = resolved imgs i (i + Suc k) cur"
        using Suc by (simp add: resolved_map_at max_def)
      finally show ?thesis using Suc unfold by simp
    qed
  qed
qed

lemma loop_complete:
  "\<forall>j<length init. \<not> prompt_throws (narration (init ! j)) \<Longrightarrow>
   length (snapshots (fst (image_loop imgs init i cur))) = length init - i \<and>
   snd (image_loop imgs init i cur) = None \<and>
   filter is_network_call (fst (image_loop imgs init i cur)) =
     map GenerateImagesCall [i..<length init]"
proof (induction i cur rule: image_loop_induct[where init = init and imgs = imgs])
  case (step i cur)
  show ?case
  proof (cases "i < length init")
    case False
    then show ?thesis by (simp add: image_loop_stop)
  next
    case True
    with step.prems have safe: "\<not> prompt_throws (narration (init ! i))" by simp
    from True have "[i..<length init] = i # [Suc i..<length init]"
      by (simp add: upt_conv_Cons)
    with step.IH[OF True safe step.prems] True safe show ?thesis
      by (simp add: image_loop_step Suc_diff_Suc split: sum.splits)
  qed
qed

subsection \<open>Replaying effects\<close>

lemma replay_Nil [simp]: "replay s [] = s"
  by (simp add: replay_def)

lemma replay_Cons [simp]: "replay s (e # es) = replay (apply_event e s) es"
  by (simp add: replay_def)

lemma replay_append: "replay s (es @ fs) = replay (replay s es) fs"
  by (simp add: replay_def)

lemma replay_loop_events:
  "\<forall>e\<in>set evs. loop_event e \<Longrightarrow>
   replay s evs = s\<lparr>storyboard := last (storyboard s # snapshots evs)\<rparr>"
proof (induction evs arbitrary: s)
  case Nil
  then show ?case by simp
next
  case (Cons e evs)
  then show ?case by (cases e) simp_all
qed

lemma states_after_append:
  "states_after s (es @ fs) = states_after s es @ states_after (replay s es) fs"
  by (induction es arbitrary: s) simp_all

lemma length_states_after [simp]: "length (states_after s es) = length es"
  by (induction es arbitrary: s) simp_all

lemma states_after_keep_loading:
  "\<forall>e\<in>set es. \<not> sets_is_loading e \<Longrightarrow>
   \<forall>st\<in>set (states_after s es). isLoading st = isLoading s"
proof (induction es arbitrary: s)
  case Nil
  then show ?case by simp
next
  case (Cons e es)
  then have "isLoading (apply_event e s) = isLoading s" by (cases e) simp_all
  with Cons show ?case by simp
qed

lemma loop_event_not_loading: "loop_event e \<Longrightarrow> \<not> sets_is_loading e"
  by (cases e) simp_all

subsection \<open>The answer of the text service\<close>

lemma to_scene_eq: "to_scene x = (if x = JNull then Inl TypeError else Inr (scene_of x))"
  by (cases x) (simp_all add: to_scene_def scene_of_def)

lemma map_scenes_eq:
  "map_scenes xs = (if JNull \<in> set xs then Inl TypeError else Inr (map scene_of xs))"
  by (induction xs) (auto simp: to_scene_eq)

lemma parse_scenes_unusable: "unusable_answer nr \<Longrightarrow> \<exists>e. parse_scenes nr = Inl e"
  by (induction nr rule: unusable_answer.induct) (simp_all add: map_scenes_eq)

lemma parse_scenes_usable:
  "\<not> unusable_answer nr \<Longrightarrow> \<exists>xs. nr = NarrationParsed (JArr xs) \<and> JNull \<notin> set xs \<and> parse_scenes nr = Inr (map scene_of xs)"
  by (induction nr rule: unusable_answer.induct) (simp_all add: map_scenes_eq)

subsection \<open>The trace of a run\<close>

lemma trace_blank:
  "trim (concept s) = [] \<Longrightarrow> generateStoryboard nr imgs s = [SetError (Some validation_message)]"
  by (simp add: generateStoryboard_def)

lemma trace_failed:
  "trim (concept s) \<noteq> [] \<Longrightarrow> parse_scenes nr = Inl e \<Longrightarrow>
   generateStoryboard nr imgs s =
     [SetIsLoading True, SetError None, SetStoryboard [], SetCurrentSceneIndex 0,
      GenerateContentCall (concept s), ConsoleError, SetError (Some failure_message),
      SetIsLoading False]"
  by (simp add: generateStoryboard_def try_block_def)

lemma trace_installed:
  "trim (concept s) \<noteq> [] \<Longrightarrow> parse_scenes nr = Inr init \<Longrightarrow>
   generateStoryboard nr imgs s =
     [SetIsLoading True, SetError None, SetStoryboard [], SetCurrentSceneIndex 0,
      GenerateContentCall (concept s), SetStoryboard init] @
     fst (image_loop imgs init 0 init) @
     (case snd (image_loop imgs init 0 init) of
        Some e \<Rightarrow> [ConsoleError, SetError (Some failure_message)]
      | None \<Rightarrow> []) @
     [SetIsLoading False]"
  by (simp add: generateStoryboard_def try_block_def split: prod.splits)

subsection \<open>Published storyboards and the shape of a run\<close>

lemma snapshots_append: "snapshots (es @ fs) = snapshots es @ snapshots fs"
  by (induction es rule: snapshots.induct) simp_all

lemma storyboard_replay: "storyboard (replay s evs) = last (storyboard s # snapshots evs)"
  by (induction evs arbitrary: s rule: snapshots.induct) simp_all

lemma parse_scenes_Inr:
  assumes "parse_scenes nr = Inr init"
  shows "\<exists>xs. nr = NarrationParsed (JArr xs) \<and> JNull \<notin> set xs \<and> init = map scene_of xs"
proof -
  have "\<not> unusable_answer nr"
    using assms parse_scenes_unusable[of nr] by auto
  from parse_scenes_usable[OF this] assms show ?thesis by auto
qed

lemma snapshots_installed:
  assumes "trim (concept s) \<noteq> []" and "parse_scenes nr = Inr init"
  shows "snapshots (generateStoryboard nr imgs s) =
           [] # init # snapshots (fst (image_loop imgs init 0 init))"
  using assms by (simp add: trace_installed snapshots_append split: option.splits)

lemma trace_shape:
  assumes "trim (concept s) \<noteq> []"
  shows "\<exists>mid. generateStoryboard nr imgs s = SetIsLoading True # mid @ [SetIsLoading False]
           \<and> (\<forall>e\<in>set mid. \<not> sets_is_loading e)"
proof (cases "parse_scenes nr")
  case (Inl e)
  with assms show ?thesis by (simp add: trace_failed)
next
  case (Inr init)
  let ?mid = "[SetError None, SetStoryboard [], SetCurrentSceneIndex 0,
      GenerateContentCall (concept s), SetStoryboard init] @
     fst (image_loop imgs init 0 init) @
     (case snd (image_loop imgs init 0 init) of
        Some e \<Rightarrow> [ConsoleError, SetError (Some failure_message)]
      | None \<Rightarrow> [])"
  have "generateStoryboard nr imgs s = SetIsLoading True # ?mid @ [SetIsLoading False]"
    using assms Inr by (simp add: trace_installed)
  moreover have "\<forall>e\<in>set ?mid. \<not> sets_is_loading e"
    using loop_events_kind[of imgs init 0 init]
    by (auto dest: loop_event_not_loading split: option.splits)
  ultimately show ?thesis by blast
qed

lemma run_failed:
  assumes "trim (concept s) \<noteq> []" and "parse_scenes nr = Inl e"
  shows "run nr imgs s =
           s\<lparr>storyboard := [], currentSceneIndex := 0, isLoading := False,
             error := Some failure_message\<rparr>"
  using assms by (simp add: run_def trace_failed)

lemma run_installed:
  assumes "trim (concept s) \<noteq> []" and "parse_scenes nr = Inr init"
  shows "run nr imgs s =
           s\<lparr>storyboard := last (init # snapshots (fst (image_loop imgs init 0 init))),
             currentSceneIndex := 0, isLoading := False,
             error := (case snd (image_loop imgs init 0 init) of
                         None \<Rightarrow> None | Some e \<Rightarrow> Some failure_message)\<rparr>"
proof -
  let ?loop = "fst (image_loop imgs init 0 init)"
  let ?pre = "[SetIsLoading True, SetError None, SetStoryboard [], SetCurrentSceneIndex 0,
      GenerateContentCall (concept s), SetStoryboard init]"
  let ?post = "(case snd (image_loop imgs init 0 init) of
        Some e \<Rightarrow> [ConsoleError, SetError (Some failure_message)]
      | None \<Rightarrow> []) @ [SetIsLoading False]"
  have "generateStoryboard nr imgs s = ?pre @ ?loop @ ?post"
    using assms by (simp add: trace_installed)
  then have "run nr imgs s = replay (replay (replay s ?pre) ?loop) ?post"
    by (simp only: run_def replay_append)
  also have "replay (replay s ?pre) ?loop =
      (replay s ?pre)\<lparr>storyboard := last (storyboard (replay s ?pre) # snapshots ?loop)\<rparr>"
    by (rule replay_loop_events) (rule loop_events_kind)
  finally show ?thesis
    by (simp split: option.splits)
qed


lemma gravity_not_blank: "trim (concept gravity_state) \<noteq> []"
  by (simp add: gravity_state_def initial_state_def code_units_def trim_def is_whitespace_def)

lemma parse_five: "parse_scenes (NarrationParsed five_descriptors) = Inr five_scenes"
  by (simp add: five_descriptors_def descriptor_def five_scenes_def map_scenes_eq scene_of_def)

lemma five_scenes_safe: "\<forall>sc\<in>set five_scenes. \<not> prompt_throws (narration sc)"
  by (simp add: five_scenes_def prompt_throws_def)

lemma published_nth:
  assumes "k \<le> length (snapshots (fst (image_loop imgs init 0 init)))"
  shows "(init # snapshots (fst (image_loop imgs init 0 init))) ! k = resolved imgs 0 k init"
proof (cases k)
  case 0
  then show ?thesis by simp
next
  case (Suc k')
  with assms have "k' < length (snapshots (fst (image_loop imgs init 0 init)))" by simp
  from loop_snapshots_nth[OF this] Suc show ?thesis by simp
qed

lemma published_all:
  assumes "sn \<in> set (init # snapshots (fst (image_loop imgs init 0 init)))"
  shows "length sn = length init \<and> map narration sn = map narration init"
proof -
  from assms obtain k where "k < length (init # snapshots (fst (image_loop imgs init 0 init)))"
    and "sn = (init # snapshots (fst (image_loop imgs init 0 init))) ! k"
    by (metis in_set_conv_nth)
  then have "sn = resolved imgs 0 k init"
    using published_nth[of k imgs init] by simp
  then show ?thesis by simp
qed

lemma scene_of_pending: "isLoadingImage (scene_of x) \<and> imageUrl (scene_of x) = None"
  by (simp add: scene_of_def)

lemma narration_scene_of: "map narration (map scene_of xs) = map narration_of xs"
  by (simp add: scene_of_def)

lemmas run_eval =
  run_def generateStoryboard_def try_block_def image_loop.simps image_step_def map_at_def
  to_scene_def prompt_throws_def enumerate_eq_zip Let_def

lemma trace_lone_empty_narration:
  "generateStoryboard lone_empty_narration (\<lambda>i. image_ok) gravity_state =
     [SetIsLoading True, SetError None, SetStoryboard [], SetCurrentSceneIndex 0,
      GenerateContentCall (code_units ''gravity''),
      SetStoryboard [\<lparr>narration = Some (JStr ''''), imageUrl = None, isLoadingImage = True\<rparr>],
      GenerateImagesCall 0,
      SetStoryboard [\<lparr>narration = Some (JStr ''''),
                      imageUrl = Some ''data:image/jpeg;base64,QUJD'', isLoadingImage = False\<rparr>],
      SetIsLoading False]"
  using gravity_not_blank
  by (simp add: run_eval lone_empty_narration_def descriptor_def image_ok_def
      gravity_state_def initial_state_def)

lemma trace_missing_narration:
  "generateStoryboard missing_narration (\<lambda>i. image_ok) gravity_state =
     [SetIsLoading True, SetError None, SetStoryboard [], SetCurrentSceneIndex 0,
      GenerateContentCall (code_units ''gravity''),
      SetStoryboard [\<lparr>narration = None, imageUrl = None, isLoadingImage = True\<rparr>],
      GenerateImagesCall 0,
      SetStoryboard [\<lparr>narration = None,
                      imageUrl = Some ''data:image/jpeg;base64,QUJD'', isLoadingImage = False\<rparr>],
      SetIsLoading False]"
  using gravity_not_blank
  by (simp add: run_eval missing_narration_def image_ok_def gravity_state_def initial_state_def)



lemma cursor_lower_bound:
  "- 1 \<le> currentSceneIndex s \<Longrightarrow>
   - 1 \<le> currentSceneIndex (handlePrev s) \<and> - 1 \<le> currentSceneIndex (handleNext s)"
  by (simp add: handlePrev_def handleNext_def)

subsection \<open>Failures of the image request, and evaluated runs\<close>

lemma image_failed_iff: "image_failed out \<longleftrightarrow> (\<exists>e. image_url_of out = Inl e)"
  by (induction out rule: image_failed.induct) simp_all

lemma resolve_failed: "image_failed out \<Longrightarrow> imageUrl (resolve out sc) = None"
  by (auto simp: resolve_def image_failed_iff)

lemma resolve_image:
  "imageUrl (resolve (ImageReturned (ImagesResponse (Some (GeneratedImage (Some (Image b)) # gs)))) sc)
     = Some (''data:image/jpeg;base64,'' @ (case b of None \<Rightarrow> ''undefined'' | Some t \<Rightarrow> t))"
  by (simp add: resolve_def)

lemma resolve_loading [simp]: "isLoadingImage (resolve out sc) = False"
  by (simp add: resolve_def)

lemma resolve_as_update:
  "resolve out sc = sc\<lparr>imageUrl := imageUrl (resolve out sc), isLoadingImage := False\<rparr>"
  by (simp add: resolve_def)



lemma trace_lone_descriptor:
  "generateStoryboard lone_descriptor (\<lambda>i. image_ok) gravity_state =
     [SetIsLoading True, SetError None, SetStoryboard [], SetCurrentSceneIndex 0,
      GenerateContentCall (code_units ''gravity''),
      SetStoryboard [\<lparr>narration = Some (JStr ''a''), imageUrl = None, isLoadingImage = True\<rparr>],
      GenerateImagesCall 0,
      SetStoryboard [\<lparr>narration = Some (JStr ''a''),
                      imageUrl = Some ''data:image/jpeg;base64,QUJD'', isLoadingImage = False\<rparr>],
      SetIsLoading False]"
  using gravity_not_blank
  by (simp add: run_eval lone_descriptor_def descriptor_def image_ok_def
      gravity_state_def initial_state_def)

lemma trace_non_object_elements:
  "generateStoryboard non_object_elements (\<lambda>i. image_ok) gravity_state =
     [SetIsLoading True, SetError None, SetStoryboard [], SetCurrentSceneIndex 0,
      GenerateContentCall (code_units ''gravity''),
      SetStoryboard
        [\<lparr>narration = None, imageUrl = None, isLoadingImage = True\<rparr>,
         \<lparr>narration = None, imageUrl = None, isLoadingImage = True\<rparr>,
         \<lparr>narration = None, imageUrl = None, isLoadingImage = True\<rparr>],
      GenerateImagesCall 0,
      SetStoryboard
        [\<lparr>narration = None, imageUrl = Some ''data:image/jpeg;base64,QUJD'', isLoadingImage = False\<rparr>,
         \<lparr>narration = None, imageUrl = None, isLoadingImage = True\<rparr>,
         \<lparr>narration = None, imageUrl = None, isLoadingImage = True\<rparr>],
      GenerateImagesCall 1,
      SetStoryboard
        [\<lparr>narration = None, imageUrl = Some ''data:image/jpeg;base64,QUJD'', isLoadingImage = False\<rparr>,
         \<lparr>narration = None, imageUrl = Some ''data:image/jpeg;base64,QUJD'', isLoadingImage = False\<rparr>,
         \<lparr>narration = None, imageUrl = None, isLoadingImage = True\<rparr>],
      GenerateImagesCall 2,
      SetStoryboard
        [\<lparr>narration = None, imageUrl = Some ''data:image/jpeg;base64,QUJD'', isLoadingImage = False\<rparr>,
         \<lparr>narration = None, imageUrl = Some ''data:image/jpeg;base64,QUJD'', isLoadingImage = False\<rparr>,
         \<lparr>narration = None, imageUrl = Some ''data:image/jpeg;base64,QUJD'', isLoadingImage = False\<rparr>],
      SetIsLoading False]"
  using gravity_not_blank
  by (simp add: run_eval non_object_elements_def image_ok_def gravity_state_def initial_state_def)

section \<open>The claims\<close>

text \<open>
  C1, amended. When the text service answers a non-blank concept with an array that has
  no \<^verbatim>\<open>null\<close> element, the run installs one scene per element, in the order of the
  array, scene \<^verbatim>\<open>k\<close> carrying whatever the \<^verbatim>\<open>narration\<close> property of element
  \<^verbatim>\<open>k\<close> is. Every storyboard published after that, and the storyboard the run ends
  with, has the same length and the same narrations in the same order. So the storyboard
  has exactly five scenes with non-empty narrations when the answer has five elements
  with non-empty string narrations; the program itself enforces neither.
\<close>

theorem storyboard_follows_answer:
  assumes "trim (concept s) \<noteq> []"
    and "nr = NarrationParsed (JArr xs)"
    and "JNull \<notin> set xs"
  shows "(let pub = snapshots (generateStoryboard nr imgs s) in
          2 \<le> length pub
        \<and> pub ! 0 = []
        \<and> pub ! 1 = map scene_of xs
        \<and> (\<forall>k. 1 \<le> k \<and> k < length pub \<longrightarrow>
              length (pub ! k) = length xs \<and> map narration (pub ! k) = map narration_of xs)
        \<and> storyboard (run nr imgs s) = last pub)
       \<and> length (storyboard (run nr imgs s)) = length xs
       \<and> map narration (storyboard (run nr imgs s)) = map narration_of xs
       \<and> (length xs = 5 \<and> (\<forall>x\<in>set xs. \<exists>t. narration_of x = Some (JStr t) \<and> t \<noteq> []) \<longrightarrow>
            length (storyboard (run nr imgs s)) = 5
          \<and> (\<forall>sc\<in>set (storyboard (run nr imgs s)). \<exists>t. narration sc = Some (JStr t) \<and> t \<noteq> []))"
proof -
  let ?init = "map scene_of xs"
  let ?snaps = "snapshots (fst (image_loop imgs ?init 0 ?init))"
  have parse: "parse_scenes nr = Inr ?init"
    using assms(2,3) by (simp add: map_scenes_eq)
  have pub: "snapshots (generateStoryboard nr imgs s) = [] # ?init # ?snaps"
    using assms(1) parse by (rule snapshots_installed)
  have every: "length sn = length xs \<and> map narration sn = map narration_of xs"
    if "sn \<in> set (?init # ?snaps)" for sn
    using published_all[OF that] by (simp only: length_map narration_scene_of)
  have final: "storyboard (run nr imgs s) = last (?init # ?snaps)"
    using run_installed[OF assms(1) parse, of imgs] by simp
  have c1: "2 \<le> length ([] # ?init # ?snaps) \<and> ([] # ?init # ?snaps) ! 0 = []
      \<and> ([] # ?init # ?snaps) ! 1 = map scene_of xs"
    by simp
  have c2: "\<forall>k. 1 \<le> k \<and> k < length ([] # ?init # ?snaps) \<longrightarrow>
              length (([] # ?init # ?snaps) ! k) = length xs
            \<and> map narration (([] # ?init # ?snaps) ! k) = map narration_of xs"
  proof (intro allI impI)
    fix k
    assume k: "1 \<le> k \<and> k < length ([] # ?init # ?snaps)"
    then obtain j where j: "k = Suc j" by (cases k) auto
    with k have "(?init # ?snaps) ! j \<in> set (?init # ?snaps)"
      by (intro nth_mem) simp
    from every[OF this] show "length (([] # ?init # ?snaps) ! k) = length xs
            \<and> map narration (([] # ?init # ?snaps) ! k) = map narration_of xs"
      by (simp add: j)
  qed
  have c3: "storyboard (run nr imgs s) = last ([] # ?init # ?snaps)"
    using final by simp
  have "last (?init # ?snaps) \<in> set (?init # ?snaps)"
    by (rule last_in_set) simp
  from every[OF this] have c4: "length (storyboard (run nr imgs s)) = length xs"
    and c5: "map narration (storyboard (run nr imgs s)) = map narration_of xs"
    by (simp_all only: final)
  have c6: "length xs = 5 \<and> (\<forall>x\<in>set xs. \<exists>t. narration_of x = Some (JStr t) \<and> t \<noteq> []) \<longrightarrow>
            length (storyboard (run nr imgs s)) = 5
          \<and> (\<forall>sc\<in>set (storyboard (run nr imgs s)). \<exists>t. narration sc = Some (JStr t) \<and> t \<noteq> [])"
  proof (intro impI conjI ballI)
    assume a: "length xs = 5 \<and> (\<forall>x\<in>set xs. \<exists>t. narration_of x = Some (JStr t) \<and> t \<noteq> [])"
    with c4 show "length (storyboard (run nr imgs s)) = 5" by simp
    fix sc
    assume "sc \<in> set (storyboard (run nr imgs s))"
    then have "narration sc \<in> set (map narration (storyboard (run nr imgs s)))" by simp
    then have "narration sc \<in> narration_of ` set xs" by (simp add: c5)
    with a show "\<exists>t. narration sc = Some (JStr t) \<and> t \<noteq> []" by auto
  qed
  show ?thesis
    unfolding Let_def pub using c1 c2 c3 c4 c5 c6 by blast
qed

theorem storyboard_follows_answer_witness:
  "trim (concept gravity_state) \<noteq> []
   \<and> JNull \<notin> set [descriptor 1 ''a'', descriptor 2 ''b'', descriptor 3 ''c'', descriptor 4 ''d'',
                     descriptor 5 ''e'']
   \<and> length (storyboard (run (NarrationParsed five_descriptors) one_failure gravity_state)) = 5
   \<and> map narration (storyboard (run (NarrationParsed five_descriptors) one_failure gravity_state))
       = [Some (JStr ''a''), Some (JStr ''b''), Some (JStr ''c''), Some (JStr ''d''),
          Some (JStr ''e'')]"
proof -
  have n: "JNull \<notin> set [descriptor 1 ''a'', descriptor 2 ''b'', descriptor 3 ''c'',
      descriptor 4 ''d'', descriptor 5 ''e'']"
    by (simp add: descriptor_def)
  have e: "NarrationParsed five_descriptors = NarrationParsed (JArr [descriptor 1 ''a'',
      descriptor 2 ''b'', descriptor 3 ''c'', descriptor 4 ''d'', descriptor 5 ''e''])"
    by (simp add: five_descriptors_def)
  note t = storyboard_follows_answer [OF gravity_not_blank e n, of one_failure]
  from t have "length (storyboard (run (NarrationParsed five_descriptors) one_failure gravity_state))
      = length [descriptor 1 ''a'', descriptor 2 ''b'', descriptor 3 ''c'', descriptor 4 ''d'',
                descriptor 5 ''e'']"
    and "map narration (storyboard (run (NarrationParsed five_descriptors) one_failure gravity_state))
      = map narration_of [descriptor 1 ''a'', descriptor 2 ''b'', descriptor 3 ''c'',
          descriptor 4 ''d'', descriptor 5 ''e'']"
    by blast+
  then have "length (storyboard (run (NarrationParsed five_descriptors) one_failure gravity_state)) = 5"
    and "map narration (storyboard (run (NarrationParsed five_descriptors) one_failure gravity_state))
       = [Some (JStr ''a''), Some (JStr ''b''), Some (JStr ''c''), Some (JStr ''d''),
          Some (JStr ''e'')]"
    by (simp_all add: descriptor_def)
  with gravity_not_blank n show ?thesis by blast
qed

text \<open>
  As stated, C1 fails: an answer with one descriptor whose narration is the empty string
  is accepted, the run succeeds, and its storyboard has one scene with an empty narration.
\<close>

theorem storyboard_not_always_five:
  "trim (concept gravity_state) \<noteq> []
   \<and> error (run lone_empty_narration (\<lambda>i. image_ok) gravity_state) = None
   \<and> isLoading (run lone_empty_narration (\<lambda>i. image_ok) gravity_state) = False
   \<and> storyboard (run lone_empty_narration (\<lambda>i. image_ok) gravity_state)
       = [\<lparr>narration = Some (JStr ''''), imageUrl = Some ''data:image/jpeg;base64,QUJD'',
           isLoadingImage = False\<rparr>]
   \<and> length (storyboard (run lone_empty_narration (\<lambda>i. image_ok) gravity_state)) \<noteq> 5"
  using gravity_not_blank
  by (simp add: run_def trace_lone_empty_narration)




text \<open>
  C3, amended. For a non-blank concept the run fails in step 1, with the generic error
  and nothing installed, when the request is rejected, the text is not JSON, the parsed
  value is not an array, or the array has a \<^verbatim>\<open>null\<close> element. Every other answer is
  an array and is installed as a storyboard, one scene per element; an element that is
  not an object, or lacks \<^verbatim>\<open>narration\<close> or \<^verbatim>\<open>scene\<close>, or has them at another type
  is not rejected: its scene carries the \<^verbatim>\<open>narration\<close> property as it is, or
  \<^verbatim>\<open>undefined\<close>.
\<close>

theorem narration_step_accepts_every_array:
  assumes "trim (concept s) \<noteq> []"
  shows "(unusable_answer nr \<longrightarrow>
            error (run nr imgs s) = Some failure_message
          \<and> storyboard (run nr imgs s) = []
          \<and> snapshots (generateStoryboard nr imgs s) = [[]])
       \<and> (\<not> unusable_answer nr \<longrightarrow>
            (\<exists>xs. nr = NarrationParsed (JArr xs)
                \<and> take 2 (snapshots (generateStoryboard nr imgs s)) = [[], map scene_of xs]
                \<and> length (storyboard (run nr imgs s)) = length xs
                \<and> map narration (storyboard (run nr imgs s)) = map narration_of xs))"
proof (intro conjI impI)
  assume "unusable_answer nr"
  then obtain e where e: "parse_scenes nr = Inl e"
    using parse_scenes_unusable by blast
  from assms e show "error (run nr imgs s) = Some failure_message"
    by (simp add: run_failed)
  from assms e show "storyboard (run nr imgs s) = []"
    by (simp add: run_failed)
  from assms e show "snapshots (generateStoryboard nr imgs s) = [[]]"
    by (simp add: trace_failed)
next
  assume "\<not> unusable_answer nr"
  then obtain xs where nr: "nr = NarrationParsed (JArr xs)"
    and parse: "parse_scenes nr = Inr (map scene_of xs)"
    using parse_scenes_usable by blast
  let ?init = "map scene_of xs"
  let ?snaps = "snapshots (fst (image_loop imgs ?init 0 ?init))"
  have "last (?init # ?snaps) \<in> set (?init # ?snaps)"
    by (rule last_in_set) simp
  moreover have final: "storyboard (run nr imgs s) = last (?init # ?snaps)"
    using run_installed[OF assms parse, of imgs] by simp
  ultimately have "length (storyboard (run nr imgs s)) = length xs
      \<and> map narration (storyboard (run nr imgs s)) = map narration_of xs"
    using published_all[of "last (?init # ?snaps)" ?init imgs]
    by (simp only: length_map narration_scene_of)
  moreover have "take 2 (snapshots (generateStoryboard nr imgs s)) = [[], map scene_of xs]"
    by (simp add: snapshots_installed[OF assms parse])
  ultimately show "\<exists>xs. nr = NarrationParsed (JArr xs)
      \<and> take 2 (snapshots (generateStoryboard nr imgs s)) = [[], map scene_of xs]
      \<and> length (storyboard (run nr imgs s)) = length xs
      \<and> map narration (storyboard (run nr imgs s)) = map narration_of xs"
    using nr by blast
qed

theorem narration_step_accepts_every_array_witness:
  "trim (concept gravity_state) \<noteq> []
   \<and> unusable_answer NarrationTextInvalid
   \<and> error (run NarrationTextInvalid (\<lambda>i. image_ok) gravity_state) = Some failure_message
   \<and> snapshots (generateStoryboard NarrationTextInvalid (\<lambda>i. image_ok) gravity_state) = [[]]
   \<and> \<not> unusable_answer missing_narration
   \<and> length (storyboard (run missing_narration (\<lambda>i. image_ok) gravity_state)) = 1"
proof -
  note a = narration_step_accepts_every_array [OF gravity_not_blank, of NarrationTextInvalid "\<lambda>i. image_ok"]
  note b = narration_step_accepts_every_array [OF gravity_not_blank, of missing_narration "\<lambda>i. image_ok"]
  have u: "unusable_answer NarrationTextInvalid" by simp
  have v: "\<not> unusable_answer missing_narration" by (simp add: missing_narration_def)
  from a u have 1: "error (run NarrationTextInvalid (\<lambda>i. image_ok) gravity_state) = Some failure_message"
    and 2: "snapshots (generateStoryboard NarrationTextInvalid (\<lambda>i. image_ok) gravity_state) = [[]]"
    by blast+
  from b v obtain xs where "missing_narration = NarrationParsed (JArr xs)"
    and "length (storyboard (run missing_narration (\<lambda>i. image_ok) gravity_state)) = length xs"
    by blast
  then have 3: "length (storyboard (run missing_narration (\<lambda>i. image_ok) gravity_state)) = 1"
    by (auto simp: missing_narration_def)
  from gravity_not_blank u 1 2 v 3 show ?thesis by blast
qed

text \<open>
  As stated, C3 fails: an array whose only element has a scene field and no narration
  field is accepted. The run installs a storyboard of one scene with \<^verbatim>\<open>narration\<close>
  \<^verbatim>\<open>undefined\<close>, fetches its image and ends without error.
\<close>

theorem nonconforming_answer_accepted:
  "trim (concept gravity_state) \<noteq> []
   \<and> snapshots (generateStoryboard missing_narration (\<lambda>i. image_ok) gravity_state)
       = [[],
          [\<lparr>narration = None, imageUrl = None, isLoadingImage = True\<rparr>],
          [\<lparr>narration = None, imageUrl = Some ''data:image/jpeg;base64,QUJD'',
            isLoadingImage = False\<rparr>]]
   \<and> error (run missing_narration (\<lambda>i. image_ok) gravity_state) = None
   \<and> storyboard (run missing_narration (\<lambda>i. image_ok) gravity_state)
       = [\<lparr>narration = None, imageUrl = Some ''data:image/jpeg;base64,QUJD'',
           isLoadingImage = False\<rparr>]"
  using gravity_not_blank
  by (simp add: run_def trace_missing_narration)

text \<open>
  C4, amended. A run that installs a storyboard clears the previous one
  (\<^verbatim>\<open>setStoryboard([])\<close>) and then publishes its snapshots. The first is the
  installed storyboard, every scene of which (one per element of the answer) has
  \<^verbatim>\<open>isLoadingImage\<close> true and \<^verbatim>\<open>imageUrl\<close> absent. The snapshot published by
  iteration \<^verbatim>\<open>k\<close> is the previous snapshot changed at index \<^verbatim>\<open>k\<close> alone, and
  there only in \<^verbatim>\<open>imageUrl\<close> and \<^verbatim>\<open>isLoadingImage\<close>: scene \<^verbatim>\<open>k\<close> was loading
  without image, and now has \<^verbatim>\<open>isLoadingImage\<close> false and \<^verbatim>\<open>imageUrl\<close> absent when
  its request failed, the data URI of the returned image when the response has one. The
  narrations of every snapshot are those of the installed storyboard. When the prompt
  template can embed every narration there is one such snapshot per scene.
\<close>

theorem snapshots_progress:
  assumes "trim (concept s) \<noteq> []" and "parse_scenes nr = Inr init"
  shows "(let pub = tl (snapshots (generateStoryboard nr imgs s)) in
          snapshots (generateStoryboard nr imgs s) = [] # pub
        \<and> 1 \<le> length pub \<and> length pub \<le> length init + 1
        \<and> pub ! 0 = init
        \<and> (\<forall>sc\<in>set (pub ! 0). isLoadingImage sc \<and> imageUrl sc = None)
        \<and> (\<forall>k. k + 1 < length pub \<longrightarrow>
              k < length init
            \<and> isLoadingImage (pub ! k ! k)
            \<and> imageUrl (pub ! k ! k) = None
            \<and> pub ! (k + 1) =
                (pub ! k)
                  [k := (pub ! k ! k)
                     \<lparr>imageUrl := imageUrl (pub ! (k + 1) ! k), isLoadingImage := False\<rparr>]
            \<and> (image_failed (imgs k) \<longrightarrow> imageUrl (pub ! (k + 1) ! k) = None)
            \<and> (\<forall>b gs. imgs k = ImageReturned (ImagesResponse (Some (GeneratedImage (Some (Image b)) # gs)))
                  \<longrightarrow> imageUrl (pub ! (k + 1) ! k)
                       = Some (''data:image/jpeg;base64,'' @
                               (case b of None \<Rightarrow> ''undefined'' | Some t \<Rightarrow> t)))
            \<and> map narration (pub ! (k + 1)) = map narration init)
        \<and> ((\<forall>sc\<in>set init. \<not> prompt_throws (narration sc)) \<longrightarrow> length pub = length init + 1))"
proof -
  let ?snaps = "snapshots (fst (image_loop imgs init 0 init))"
  let ?pub = "init # ?snaps"
  have all: "snapshots (generateStoryboard nr imgs s) = [] # ?pub"
    using assms by (rule snapshots_installed)
  then have pub: "tl (snapshots (generateStoryboard nr imgs s)) = ?pub"
    by simp
  have len: "length ?snaps \<le> length init"
    using loop_snapshots_length[of imgs init 0 init] by simp
  have pending: "\<forall>sc\<in>set init. isLoadingImage sc \<and> imageUrl sc = None"
    using parse_scenes_Inr[OF assms(2)] by (auto simp: scene_of_pending)
  have step: "k < length init
            \<and> isLoadingImage (?pub ! k ! k)
            \<and> imageUrl (?pub ! k ! k) = None
            \<and> ?pub ! (k + 1) =
                (?pub ! k)
                  [k := (?pub ! k ! k)
                     \<lparr>imageUrl := imageUrl (?pub ! (k + 1) ! k), isLoadingImage := False\<rparr>]
            \<and> (image_failed (imgs k) \<longrightarrow> imageUrl (?pub ! (k + 1) ! k) = None)
            \<and> (\<forall>b gs. imgs k = ImageReturned (ImagesResponse (Some (GeneratedImage (Some (Image b)) # gs)))
                  \<longrightarrow> imageUrl (?pub ! (k + 1) ! k)
                       = Some (''data:image/jpeg;base64,'' @
                               (case b of None \<Rightarrow> ''undefined'' | Some t \<Rightarrow> t)))
            \<and> map narration (?pub ! (k + 1)) = map narration init" if k: "k < length ?snaps" for k
  proof -
    from k len have kn: "k < length init" by simp
    from k have before: "?pub ! k = resolved imgs 0 k init"
      by (intro published_nth) simp
    have "?pub ! (k + 1) = ?snaps ! k" by simp
    also have "\<dots> = resolved imgs 0 (Suc k) init"
      using loop_snapshots_nth[OF k] by simp
    finally have after: "?pub ! (k + 1) = resolved imgs 0 (Suc k) init" .
    have same: "resolved imgs 0 k init ! k = init ! k"
      using kn by (simp add: nth_resolved)
    have new: "resolved imgs 0 (Suc k) init ! k = resolve (imgs k) (init ! k)"
      using kn by (simp add: nth_resolved)
    from kn pending have "isLoadingImage (init ! k) \<and> imageUrl (init ! k) = None"
      by simp
    then have 1: "isLoadingImage (?pub ! k ! k) \<and> imageUrl (?pub ! k ! k) = None"
      by (simp only: before same)
    have upd: "resolved imgs 0 (Suc k) init
        = (resolved imgs 0 k init)[k := resolve (imgs k) (init ! k)]"
      using kn by (simp add: resolved_Suc same)
    have g: "resolved imgs 0 (Suc k) init
        = (resolved imgs 0 k init)
            [k := (init ! k)\<lparr>imageUrl := imageUrl (resolve (imgs k) (init ! k)),
                             isLoadingImage := False\<rparr>]"
      by (simp only: resolve_as_update[of "imgs k" "init ! k", symmetric] upd)
    have 2: "?pub ! (k + 1) =
                (?pub ! k)
                  [k := (?pub ! k ! k)
                     \<lparr>imageUrl := imageUrl (?pub ! (k + 1) ! k), isLoadingImage := False\<rparr>]"
      by (simp only: before after same new) (rule g)
    have 3: "image_failed (imgs k) \<longrightarrow> imageUrl (?pub ! (k + 1) ! k) = None"
      by (simp only: after new) (simp add: resolve_failed)
    have 4: "\<forall>b gs. imgs k = ImageReturned (ImagesResponse (Some (GeneratedImage (Some (Image b)) # gs)))
                  \<longrightarrow> imageUrl (?pub ! (k + 1) ! k)
                       = Some (''data:image/jpeg;base64,'' @
                               (case b of None \<Rightarrow> ''undefined'' | Some t \<Rightarrow> t))"
      by (simp only: after new) (simp add: resolve_image)
    have 5: "map narration (?pub ! (k + 1)) = map narration init"
      by (simp only: after) simp
    from kn 1 2 3 4 5 show ?thesis by blast
  qed
  have complete: "length ?snaps = length init"
    if "\<forall>sc\<in>set init. \<not> prompt_throws (narration sc)"
    using that loop_complete[of init imgs 0 init] by simp
  have c1: "1 \<le> length ?pub \<and> length ?pub \<le> length init + 1"
    using len by simp
  have c2: "?pub ! 0 = init" by simp
  have c3: "\<forall>sc\<in>set (?pub ! 0). isLoadingImage sc \<and> imageUrl sc = None"
    using pending by simp
  have c4: "\<forall>k. k + 1 < length ?pub \<longrightarrow>
              k < length init
            \<and> isLoadingImage (?pub ! k ! k)
            \<and> imageUrl (?pub ! k ! k) = None
            \<and> ?pub ! (k + 1) =
                (?pub ! k)
                  [k := (?pub ! k ! k)
                     \<lparr>imageUrl := imageUrl (?pub ! (k + 1) ! k), isLoadingImage := False\<rparr>]
            \<and> (image_failed (imgs k) \<longrightarrow> imageUrl (?pub ! (k + 1) ! k) = None)
            \<and> (\<forall>b gs. imgs k = ImageReturned (ImagesResponse (Some (GeneratedImage (Some (Image b)) # gs)))
                  \<longrightarrow> imageUrl (?pub ! (k + 1) ! k)
                       = Some (''data:image/jpeg;base64,'' @
                               (case b of None \<Rightarrow> ''undefined'' | Some t \<Rightarrow> t)))
            \<and> map narration (?pub ! (k + 1)) = map narration init"
  proof (intro allI impI)
    fix k
    assume "k + 1 < length ?pub"
    then have "k < length ?snaps" by simp
    then show "k < length init
            \<and> isLoadingImage (?pub ! k ! k)
            \<and> imageUrl (?pub ! k ! k) = None
            \<and> ?pub ! (k + 1) =
                (?pub ! k)
                  [k := (?pub ! k ! k)
                     \<lparr>imageUrl := imageUrl (?pub ! (k + 1) ! k), isLoadingImage := False\<rparr>]
            \<and> (image_failed (imgs k) \<longrightarrow> imageUrl (?pub ! (k + 1) ! k) = None)
            \<and> (\<forall>b gs. imgs k = ImageReturned (ImagesResponse (Some (GeneratedImage (Some (Image b)) # gs)))
                  \<longrightarrow> imageUrl (?pub ! (k + 1) ! k)
                       = Some (''data:image/jpeg;base64,'' @
                               (case b of None \<Rightarrow> ''undefined'' | Some t \<Rightarrow> t)))
            \<and> map narration (?pub ! (k + 1)) = map narration init" by (rule step)
  qed
  have c5: "(\<forall>sc\<in>set init. \<not> prompt_throws (narration sc)) \<longrightarrow>
      length ?pub = length init + 1"
    using complete by simp
  show ?thesis
    unfolding Let_def pub using all c1 c2 c3 c4 c5 by blast
qed

theorem snapshots_progress_witness:
  "trim (concept gravity_state) \<noteq> []
   \<and> parse_scenes (NarrationParsed five_descriptors) = Inr five_scenes
   \<and> image_failed (two_failures 2)
   \<and> length (tl (snapshots (generateStoryboard (NarrationParsed five_descriptors) two_failures gravity_state))) = 6
   \<and> tl (snapshots (generateStoryboard (NarrationParsed five_descriptors) two_failures gravity_state)) ! 0
       = five_scenes
   \<and> tl (snapshots (generateStoryboard (NarrationParsed five_descriptors) two_failures gravity_state)) ! 1
       = five_scenes
           [0 := (five_scenes ! 0)
              \<lparr>imageUrl := Some ''data:image/jpeg;base64,QUJD'', isLoadingImage := False\<rparr>]
   \<and> tl (snapshots (generateStoryboard (NarrationParsed five_descriptors) two_failures gravity_state)) ! 3
       = (tl (snapshots (generateStoryboard (NarrationParsed five_descriptors) two_failures gravity_state)) ! 2)
           [2 := (tl (snapshots (generateStoryboard (NarrationParsed five_descriptors) two_failures gravity_state)) ! 2 ! 2)
              \<lparr>imageUrl := None, isLoadingImage := False\<rparr>]"
proof -
  let ?pub = "tl (snapshots (generateStoryboard (NarrationParsed five_descriptors) two_failures gravity_state))"
  note t = snapshots_progress [OF gravity_not_blank parse_five, of two_failures, unfolded Let_def]
  have len: "length five_scenes = 5" by (simp add: five_scenes_def)
  from t five_scenes_safe have n: "length ?pub = 6" by (simp add: len)
  from t have p0: "?pub ! 0 = five_scenes" by blast
  from t have steps: "\<forall>k. k + 1 < length ?pub \<longrightarrow>
        ?pub ! (k + 1) = (?pub ! k)
          [k := (?pub ! k ! k)\<lparr>imageUrl := imageUrl (?pub ! (k + 1) ! k), isLoadingImage := False\<rparr>]
      \<and> (image_failed (two_failures k) \<longrightarrow> imageUrl (?pub ! (k + 1) ! k) = None)
      \<and> (\<forall>b gs. two_failures k = ImageReturned (ImagesResponse (Some (GeneratedImage (Some (Image b)) # gs)))
            \<longrightarrow> imageUrl (?pub ! (k + 1) ! k)
                 = Some (''data:image/jpeg;base64,'' @
                         (case b of None \<Rightarrow> ''undefined'' | Some t \<Rightarrow> t)))"
    by blast
  have f2: "image_failed (two_failures 2)" by (simp add: two_failures_def)
  have g0: "two_failures 0 = ImageReturned (ImagesResponse (Some (GeneratedImage (Some (Image (Some ''QUJD''))) # [])))"
    by (simp add: two_failures_def image_ok_def)
  have a0: "(0::nat) + 1 = 1" "(1::nat) < 6" by simp_all
  have a2: "(2::nat) + 1 = 3" "(3::nat) < 6" by simp_all
  note s0 = steps[rule_format, of 0, unfolded a0 n, OF a0(2)]
  note s2 = steps[rule_format, of 2, unfolded a2 n, OF a2(2)]
  from s0 g0 have "imageUrl (?pub ! 1 ! 0)
      = Some (''data:image/jpeg;base64,'' @ (case Some ''QUJD'' of None \<Rightarrow> ''undefined'' | Some t \<Rightarrow> t))"
    by blast
  then have u0: "imageUrl (?pub ! 1 ! 0) = Some ''data:image/jpeg;base64,QUJD''" by simp
  from s2 f2 have u2: "imageUrl (?pub ! 3 ! 2) = None" by blast
  from s0 have p1: "?pub ! 1 = five_scenes
           [0 := (five_scenes ! 0)
              \<lparr>imageUrl := Some ''data:image/jpeg;base64,QUJD'', isLoadingImage := False\<rparr>]"
    by (simp only: u0 p0)
  from s2 have p3: "?pub ! 3 = (?pub ! 2)
           [2 := (?pub ! 2 ! 2)\<lparr>imageUrl := None, isLoadingImage := False\<rparr>]"
    by (simp only: u2)
  from gravity_not_blank parse_five f2 n p0 p1 p3 show ?thesis by blast
qed

text \<open>
  As stated, C4 fails: for an answer with a single descriptor the first published
  snapshot has one scene, not five.
\<close>

theorem first_snapshot_has_one_scene:
  "trim (concept gravity_state) \<noteq> []
   \<and> snapshots (generateStoryboard lone_descriptor (\<lambda>i. image_ok) gravity_state)
       = [[],
          [\<lparr>narration = Some (JStr ''a''), imageUrl = None, isLoadingImage = True\<rparr>],
          [\<lparr>narration = Some (JStr ''a''), imageUrl = Some ''data:image/jpeg;base64,QUJD'',
            isLoadingImage = False\<rparr>]]
   \<and> length (snapshots (generateStoryboard lone_descriptor (\<lambda>i. image_ok) gravity_state) ! 1) \<noteq> 5
   \<and> storyboard (run lone_descriptor (\<lambda>i. image_ok) gravity_state)
       = [\<lparr>narration = Some (JStr ''a''), imageUrl = Some ''data:image/jpeg;base64,QUJD'',
           isLoadingImage = False\<rparr>]"
  using gravity_not_blank
  by (simp add: run_def trace_lone_descriptor)

text \<open>
  C5, amended. When the request to the text service is rejected, or its text is not
  JSON, or the parsed value is not an array, or the array has a \<^verbatim>\<open>null\<close> element, the
  run publishes no storyboard (the only call of \<^verbatim>\<open>setStoryboard\<close> is the clearing of the
  previous one), sends no request to the image service, and ends with the storyboard
  empty, the generic failure message as error and the busy flag false. Every other
  answer is an array without \<^verbatim>\<open>null\<close> element and is published as a storyboard, one
  scene per element, however malformed the elements are; the busy flag is false at the
  end of that run as well.
\<close>

theorem narration_failure_is_fatal:
  assumes "trim (concept s) \<noteq> []"
  shows "(unusable_answer nr \<longrightarrow>
            snapshots (generateStoryboard nr imgs s) = [[]]
          \<and> filter is_network_call (generateStoryboard nr imgs s) = [GenerateContentCall (concept s)]
          \<and> run nr imgs s =
              s\<lparr>storyboard := [], currentSceneIndex := 0, isLoading := False,
                error := Some failure_message\<rparr>
          \<and> storyboard (run nr imgs s) = []
          \<and> error (run nr imgs s) = Some failure_message
          \<and> isLoading (run nr imgs s) = False)
       \<and> (\<not> unusable_answer nr \<longrightarrow>
            (\<exists>xs. nr = NarrationParsed (JArr xs)
                \<and> tl (snapshots (generateStoryboard nr imgs s)) \<noteq> []
                \<and> hd (tl (snapshots (generateStoryboard nr imgs s))) = map scene_of xs)
          \<and> isLoading (run nr imgs s) = False)"
proof (intro conjI impI)
  assume "unusable_answer nr"
  then obtain e where e: "parse_scenes nr = Inl e"
    using parse_scenes_unusable by blast
  have tr: "generateStoryboard nr imgs s =
     [SetIsLoading True, SetError None, SetStoryboard [], SetCurrentSceneIndex 0,
      GenerateContentCall (concept s), ConsoleError, SetError (Some failure_message),
      SetIsLoading False]"
    using assms e by (rule trace_failed)
  note r = run_failed[OF assms e, of imgs]
  show "snapshots (generateStoryboard nr imgs s) = [[]]" by (simp add: tr)
  show "filter is_network_call (generateStoryboard nr imgs s) = [GenerateContentCall (concept s)]"
    by (simp add: tr)
  show "run nr imgs s =
      s\<lparr>storyboard := [], currentSceneIndex := 0, isLoading := False,
        error := Some failure_message\<rparr>"
    by (rule r)
  show "storyboard (run nr imgs s) = []" by (simp add: r)
  show "error (run nr imgs s) = Some failure_message" by (simp add: r)
  show "isLoading (run nr imgs s) = False" by (simp add: r)
next
  assume "\<not> unusable_answer nr"
  then obtain xs where nr: "nr = NarrationParsed (JArr xs)"
    and parse: "parse_scenes nr = Inr (map scene_of xs)"
    using parse_scenes_usable by blast
  have "snapshots (generateStoryboard nr imgs s)
      = [] # map scene_of xs # snapshots (fst (image_loop imgs (map scene_of xs) 0 (map scene_of xs)))"
    using assms parse by (rule snapshots_installed)
  then have "tl (snapshots (generateStoryboard nr imgs s)) \<noteq> []
      \<and> hd (tl (snapshots (generateStoryboard nr imgs s))) = map scene_of xs"
    by simp
  with nr show "\<exists>xs. nr = NarrationParsed (JArr xs)
      \<and> tl (snapshots (generateStoryboard nr imgs s)) \<noteq> []
      \<and> hd (tl (snapshots (generateStoryboard nr imgs s))) = map scene_of xs"
    by blast
  show "isLoading (run nr imgs s) = False"
    using run_installed[OF assms parse, of imgs] by simp
qed

theorem narration_failure_is_fatal_witness:
  "trim (concept gravity_state) \<noteq> []
   \<and> unusable_answer NarrationCallRejected
   \<and> unusable_answer NarrationTextInvalid
   \<and> unusable_answer (NarrationParsed (JObj [(''scenes'', JArr [])]))
   \<and> unusable_answer (NarrationParsed (JArr [descriptor 1 ''a'', JNull]))
   \<and> snapshots (generateStoryboard NarrationCallRejected (\<lambda>i. image_ok) gravity_state) = [[]]
   \<and> error (run NarrationTextInvalid (\<lambda>i. image_ok) gravity_state) = Some failure_message
   \<and> storyboard (run (NarrationParsed (JObj [(''scenes'', JArr [])])) (\<lambda>i. image_ok) gravity_state) = []
   \<and> isLoading (run (NarrationParsed (JArr [descriptor 1 ''a'', JNull])) (\<lambda>i. image_ok) gravity_state) = False
   \<and> \<not> unusable_answer non_object_elements
   \<and> tl (snapshots (generateStoryboard non_object_elements (\<lambda>i. image_ok) gravity_state)) \<noteq> []"
proof -
  note a = narration_failure_is_fatal [OF gravity_not_blank, of NarrationCallRejected "\<lambda>i. image_ok"]
  note b = narration_failure_is_fatal [OF gravity_not_blank, of NarrationTextInvalid "\<lambda>i. image_ok"]
  note c = narration_failure_is_fatal [OF gravity_not_blank,
      of "NarrationParsed (JObj [(''scenes'', JArr [])])" "\<lambda>i. image_ok"]
  note d = narration_failure_is_fatal [OF gravity_not_blank,
      of "NarrationParsed (JArr [descriptor 1 ''a'', JNull])" "\<lambda>i. image_ok"]
  note e = narration_failure_is_fatal [OF gravity_not_blank, of non_object_elements "\<lambda>i. image_ok"]
  have u1: "unusable_answer NarrationCallRejected" by simp
  have u2: "unusable_answer NarrationTextInvalid" by simp
  have u3: "unusable_answer (NarrationParsed (JObj [(''scenes'', JArr [])]))" by simp
  have u4: "unusable_answer (NarrationParsed (JArr [descriptor 1 ''a'', JNull]))" by simp
  have u5: "\<not> unusable_answer non_object_elements" by (simp add: non_object_elements_def)
  from a u1 have 1: "snapshots (generateStoryboard NarrationCallRejected (\<lambda>i. image_ok) gravity_state) = [[]]"
    by blast
  from b u2 have 2: "error (run NarrationTextInvalid (\<lambda>i. image_ok) gravity_state) = Some failure_message"
    by blast
  from c u3 have 3: "storyboard (run (NarrationParsed (JObj [(''scenes'', JArr [])])) (\<lambda>i. image_ok) gravity_state) = []"
    by blast
  from d u4 have 4: "isLoading (run (NarrationParsed (JArr [descriptor 1 ''a'', JNull])) (\<lambda>i. image_ok) gravity_state) = False"
    by blast
  from e u5 have 5: "tl (snapshots (generateStoryboard non_object_elements (\<lambda>i. image_ok) gravity_state)) \<noteq> []"
    by blast
  from gravity_not_blank u1 u2 u3 u4 1 2 3 4 u5 5 show ?thesis by blast
qed

text \<open>
  As stated, C5 fails: an array of a number, a string and a boolean is malformed data,
  yet it is published as a storyboard of three scenes and the run ends without error.
\<close>

theorem malformed_answer_is_published:
  "trim (concept gravity_state) \<noteq> []
   \<and> snapshots (generateStoryboard non_object_elements (\<lambda>i. image_ok) gravity_state) ! 1
       = [\<lparr>narration = None, imageUrl = None, isLoadingImage = True\<rparr>,
          \<lparr>narration = None, imageUrl = None, isLoadingImage = True\<rparr>,
          \<lparr>narration = None, imageUrl = None, isLoadingImage = True\<rparr>]
   \<and> storyboard (run non_object_elements (\<lambda>i. image_ok) gravity_state)
       = [\<lparr>narration = None, imageUrl = Some ''data:image/jpeg;base64,QUJD'', isLoadingImage = False\<rparr>,
          \<lparr>narration = None, imageUrl = Some ''data:image/jpeg;base64,QUJD'', isLoadingImage = False\<rparr>,
          \<lparr>narration = None, imageUrl = Some ''data:image/jpeg;base64,QUJD'', isLoadingImage = False\<rparr>]
   \<and> error (run non_object_elements (\<lambda>i. image_ok) gravity_state) = None
   \<and> isLoading (run non_object_elements (\<lambda>i. image_ok) gravity_state) = False"
  using gravity_not_blank
  by (simp add: run_def trace_non_object_elements)

text \<open>
  C6. The busy flag \<^verbatim>\<open>isLoading\<close> is true exactly for the span of a run started with a
  non-blank concept. Such a run sets the flag twice: its first effect sets it to true,
  its last effect sets it to false, so it is true in every state between the two and
  false when the run ends, whether the run was aborted by the outer \<^verbatim>\<open>catch\<close> or
  completed. A run started with a blank concept never touches the flag.
\<close>

theorem busy_flag_spans_run:
  "(trim (concept s) \<noteq> [] \<longrightarrow>
      hd (generateStoryboard nr imgs s) = SetIsLoading True
    \<and> last (generateStoryboard nr imgs s) = SetIsLoading False
    \<and> filter sets_is_loading (generateStoryboard nr imgs s) = [SetIsLoading True, SetIsLoading False]
    \<and> (\<forall>st\<in>set (butlast (states_after s (generateStoryboard nr imgs s))). isLoading st)
    \<and> last (states_after s (generateStoryboard nr imgs s)) = run nr imgs s
    \<and> \<not> isLoading (run nr imgs s))
   \<and> (trim (concept s) = [] \<longrightarrow>
        (\<forall>st\<in>set (states_after s (generateStoryboard nr imgs s)). isLoading st = isLoading s)
      \<and> isLoading (run nr imgs s) = isLoading s)"
proof (intro conjI impI)
  assume blank: "trim (concept s) = []"
  then show "\<forall>st\<in>set (states_after s (generateStoryboard nr imgs s)). isLoading st = isLoading s"
    by (simp add: trace_blank)
  from blank show "isLoading (run nr imgs s) = isLoading s"
    by (simp add: trace_blank run_def)
next
  assume "trim (concept s) \<noteq> []"
  then obtain mid where tr: "generateStoryboard nr imgs s = SetIsLoading True # mid @ [SetIsLoading False]"
    and mid: "\<forall>e\<in>set mid. \<not> sets_is_loading e"
    using trace_shape by blast
  let ?s1 = "s\<lparr>isLoading := True\<rparr>"
  have sts: "states_after s (generateStoryboard nr imgs s) =
      (?s1 # states_after ?s1 mid) @ [(replay ?s1 mid)\<lparr>isLoading := False\<rparr>]"
    by (simp add: tr states_after_append)
  show "hd (generateStoryboard nr imgs s) = SetIsLoading True" by (simp add: tr)
  show "last (generateStoryboard nr imgs s) = SetIsLoading False" by (simp add: tr)
  from mid have "filter sets_is_loading mid = []" by (simp add: filter_empty_conv)
  then show "filter sets_is_loading (generateStoryboard nr imgs s) = [SetIsLoading True, SetIsLoading False]"
    by (simp add: tr)
  have "butlast (states_after s (generateStoryboard nr imgs s)) = ?s1 # states_after ?s1 mid"
    unfolding sts by (rule butlast_snoc)
  with states_after_keep_loading[OF mid, of ?s1]
  show "\<forall>st\<in>set (butlast (states_after s (generateStoryboard nr imgs s))). isLoading st"
    by simp
  have r: "run nr imgs s = (replay ?s1 mid)\<lparr>isLoading := False\<rparr>"
    by (simp add: run_def tr replay_append)
  show "last (states_after s (generateStoryboard nr imgs s)) = run nr imgs s"
    unfolding sts r by simp
  show "\<not> isLoading (run nr imgs s)" by (simp add: r)
qed

theorem busy_flag_spans_run_witness:
  "trim (concept gravity_state) \<noteq> []
   \<and> isLoading (last (butlast (states_after gravity_state
        (generateStoryboard NarrationTextInvalid (\<lambda>i. image_ok) gravity_state))))
   \<and> \<not> isLoading (run NarrationTextInvalid (\<lambda>i. image_ok) gravity_state)
   \<and> trim (concept initial_state) = []
   \<and> \<not> isLoading (run NarrationTextInvalid (\<lambda>i. image_ok) initial_state)"
proof -
  have h: "trim (concept gravity_state) \<noteq> []"
    by (simp add: gravity_state_def initial_state_def code_units_def trim_def is_whitespace_def)
  have b: "trim (concept initial_state) = []"
    by (simp add: initial_state_def trim_def)
  have n: "butlast (states_after gravity_state
        (generateStoryboard NarrationTextInvalid (\<lambda>i. image_ok) gravity_state)) \<noteq> []"
    using h by (simp add: trace_failed)
  have i: "\<not> isLoading initial_state" by (simp add: initial_state_def)
  note run1 = busy_flag_spans_run [of gravity_state NarrationTextInvalid "\<lambda>i. image_ok"]
  note run2 = busy_flag_spans_run [of initial_state NarrationTextInvalid "\<lambda>i. image_ok"]
  from run1 h have "\<forall>st\<in>set (butlast (states_after gravity_state
        (generateStoryboard NarrationTextInvalid (\<lambda>i. image_ok) gravity_state))). isLoading st"
    by blast
  with n have 1: "isLoading (last (butlast (states_after gravity_state
        (generateStoryboard NarrationTextInvalid (\<lambda>i. image_ok) gravity_state))))"
    using last_in_set by blast
  from run1 h have 2: "\<not> isLoading (run NarrationTextInvalid (\<lambda>i. image_ok) gravity_state)"
    by blast
  from run2 b i have 3: "\<not> isLoading (run NarrationTextInvalid (\<lambda>i. image_ok) initial_state)"
    by metis
  from h 1 2 b 3 show ?thesis by blast
qed

text \<open>
  C7. On a storyboard that is not empty, a cursor within \<^verbatim>\<open>[0, length - 1]\<close> stays
  there under \<^verbatim>\<open>handlePrev\<close> and \<^verbatim>\<open>handleNext\<close>: at index 0 \<^verbatim>\<open>handlePrev\<close>
  changes nothing, at index \<^verbatim>\<open>length - 1\<close> \<^verbatim>\<open>handleNext\<close> changes nothing, and away
  from the boundary they move the cursor by one. Both are total, neither throws.
\<close>

theorem cursor_stays_in_range:
  assumes "0 < length (storyboard s)"
    and "0 \<le> currentSceneIndex s"
    and "currentSceneIndex s \<le> int (length (storyboard s)) - 1"
  shows "0 \<le> currentSceneIndex (handlePrev s)
       \<and> currentSceneIndex (handlePrev s) \<le> int (length (storyboard (handlePrev s))) - 1
       \<and> 0 \<le> currentSceneIndex (handleNext s)
       \<and> currentSceneIndex (handleNext s) \<le> int (length (storyboard (handleNext s))) - 1
       \<and> (currentSceneIndex s = 0 \<longrightarrow> handlePrev s = s)
       \<and> (currentSceneIndex s = int (length (storyboard s)) - 1 \<longrightarrow> handleNext s = s)
       \<and> (0 < currentSceneIndex s \<longrightarrow>
            currentSceneIndex (handlePrev s) = currentSceneIndex s - 1)
       \<and> (currentSceneIndex s < int (length (storyboard s)) - 1 \<longrightarrow>
            currentSceneIndex (handleNext s) = currentSceneIndex s + 1)"
  using assms by (auto simp: handlePrev_def handleNext_def)

theorem cursor_stays_in_range_witness:
  "handlePrev (initial_state\<lparr>storyboard := three_scenes\<rparr>) = initial_state\<lparr>storyboard := three_scenes\<rparr>
   \<and> currentSceneIndex (handleNext (initial_state\<lparr>storyboard := three_scenes\<rparr>)) = 1
   \<and> handleNext (initial_state\<lparr>storyboard := three_scenes, currentSceneIndex := 2\<rparr>)
       = initial_state\<lparr>storyboard := three_scenes, currentSceneIndex := 2\<rparr>
   \<and> currentSceneIndex (handlePrev (initial_state\<lparr>storyboard := three_scenes, currentSceneIndex := 2\<rparr>)) = 1"
  using cursor_stays_in_range [of "initial_state\<lparr>storyboard := three_scenes\<rparr>"]
    cursor_stays_in_range [of "initial_state\<lparr>storyboard := three_scenes, currentSceneIndex := 2\<rparr>"]
  by (simp add: initial_state_def three_scenes_def)

text \<open>
  C8. With a blank concept (empty, or whitespace only) \<^verbatim>\<open>generateStoryboard\<close> has one
  effect, setting the error to the validation message: no request is sent, the busy flag
  is not set, and the storyboard and the cursor are left as they were.
\<close>

theorem blank_concept_rejected:
  assumes "\<forall>c\<in>set (concept s). is_whitespace c"
  shows "generateStoryboard nr imgs s = [SetError (Some validation_message)]
       \<and> run nr imgs s = s\<lparr>error := Some validation_message\<rparr>
       \<and> filter is_network_call (generateStoryboard nr imgs s) = []
       \<and> filter sets_is_loading (generateStoryboard nr imgs s) = []
       \<and> snapshots (generateStoryboard nr imgs s) = []
       \<and> isLoading (run nr imgs s) = isLoading s
       \<and> storyboard (run nr imgs s) = storyboard s
       \<and> currentSceneIndex (run nr imgs s) = currentSceneIndex s"
proof -
  from assms have "trim (concept s) = []" by (simp add: trim_empty_iff)
  then have "generateStoryboard nr imgs s = [SetError (Some validation_message)]"
    by (rule trace_blank)
  then show ?thesis by (simp add: run_def)
qed

theorem blank_concept_rejected_witness:
  "run (NarrationParsed (JArr [])) (\<lambda>i. ImageCallRejected)
       (initial_state\<lparr>concept := [32, 9, 12288], storyboard := three_scenes, currentSceneIndex := 2\<rparr>)
     = initial_state\<lparr>concept := [32, 9, 12288], storyboard := three_scenes, currentSceneIndex := 2,
          error := Some validation_message\<rparr>
   \<and> generateStoryboard (NarrationParsed (JArr [])) (\<lambda>i. ImageCallRejected)
       (initial_state\<lparr>concept := [32, 9, 12288], storyboard := three_scenes, currentSceneIndex := 2\<rparr>)
     = [SetError (Some validation_message)]"
  using blank_concept_rejected [of "initial_state\<lparr>concept := [32, 9, 12288], storyboard := three_scenes, currentSceneIndex := 2\<rparr>"
      "NarrationParsed (JArr [])" "\<lambda>i. ImageCallRejected"]
  by (simp add: initial_state_def is_whitespace_def)

text \<open>
  C9. On an empty storyboard \<^verbatim>\<open>handleNext\<close> clamps to \<^verbatim>\<open>length - 1 = -1\<close>: from 0,
  and from \<^verbatim>\<open>-1\<close>, the only other value the cursor takes there, the cursor becomes
  \<^verbatim>\<open>-1\<close>. On a storyboard that is not empty a cursor that is not negative stays so.
\<close>

theorem next_on_empty_storyboard:
  "(storyboard s = [] \<and> - 1 \<le> currentSceneIndex s \<longrightarrow>
      currentSceneIndex (handleNext s) = - 1)
   \<and> (storyboard s \<noteq> [] \<and> 0 \<le> currentSceneIndex s \<longrightarrow>
      0 \<le> currentSceneIndex (handleNext s))"
  by (cases "storyboard s") (simp_all add: handleNext_def)

theorem next_on_empty_storyboard_witness:
  "storyboard initial_state = []
   \<and> currentSceneIndex initial_state = 0
   \<and> currentSceneIndex (handleNext initial_state) = - 1
   \<and> currentSceneIndex (handleNext (handleNext initial_state)) = - 1
   \<and> currentSceneIndex (handleNext (initial_state\<lparr>storyboard := three_scenes\<rparr>)) = 1"
  using next_on_empty_storyboard [of initial_state]
    next_on_empty_storyboard [of "handleNext initial_state"]
    next_on_empty_storyboard [of "initial_state\<lparr>storyboard := three_scenes\<rparr>"]
  by (simp add: initial_state_def handleNext_def three_scenes_def)

text \<open>
  C10. A run started with a non-blank concept clears the error before it sends its first
  request: the effects that precede the first request are the four resets, the error is
  absent when the request is sent, whatever it was before the run.
\<close>

theorem error_cleared_before_first_call:
  assumes "trim (concept s) \<noteq> []"
  shows "takeWhile (\<lambda>e. \<not> is_network_call e) (generateStoryboard nr imgs s)
           = [SetIsLoading True, SetError None, SetStoryboard [], SetCurrentSceneIndex 0]
       \<and> generateStoryboard nr imgs s ! 4 = GenerateContentCall (concept s)
       \<and> error (replay s (takeWhile (\<lambda>e. \<not> is_network_call e) (generateStoryboard nr imgs s))) = None"
proof (cases "parse_scenes nr")
  case (Inl e)
  with assms show ?thesis by (simp add: trace_failed)
next
  case (Inr init)
  with assms show ?thesis by (simp add: trace_installed)
qed

theorem error_cleared_before_first_call_witness:
  "error (replay (initial_state\<lparr>concept := code_units ''gravity'', error := Some failure_message\<rparr>)
      (takeWhile (\<lambda>e. \<not> is_network_call e)
         (generateStoryboard NarrationCallRejected (\<lambda>i. ImageCallRejected)
            (initial_state\<lparr>concept := code_units ''gravity'', error := Some failure_message\<rparr>)))) = None
   \<and> error (initial_state\<lparr>concept := code_units ''gravity'', error := Some failure_message\<rparr>) = Some failure_message"
  using error_cleared_before_first_call [of "initial_state\<lparr>concept := code_units ''gravity'', error := Some failure_message\<rparr>"
      NarrationCallRejected "\<lambda>i. ImageCallRejected"]
  by (simp add: initial_state_def code_units_def trim_def is_whitespace_def)

end
